theory Spec2Isabelle
  imports Complex_Main "HOL-Library.AList"
begin

section \<open>JavaScript values used by the MediaPlayer bridge\<close>

text \<open>
  The bridge is \<^verbatim>\<open>Libraries/MediaPlayer/MediaPlayer.tizen.js\<close>. Its behaviour depends on
  a few points of JavaScript semantics, which the model writes out:
  \<^item> a number is an IEEE double: a finite value (here a rational), an infinity or NaN;
  \<^item> \<^verbatim>\<open>Number.isInteger(v)\<close> holds only of a finite number without fractional part
    (never of a string, boolean, \<^verbatim>\<open>null\<close> or \<^verbatim>\<open>undefined\<close>);
  \<^item> \<^verbatim>\<open>a && b\<close> evaluates \<^verbatim>\<open>b\<close> only when \<^verbatim>\<open>a\<close> is truthy; the falsy values are
    \<^verbatim>\<open>undefined\<close>, \<^verbatim>\<open>null\<close>, \<^verbatim>\<open>false\<close>, \<^verbatim>\<open>0\<close>, \<^verbatim>\<open>NaN\<close> and the empty string;
  \<^item> reading an array outside its bounds, or a property an object does not have,
    gives \<^verbatim>\<open>undefined\<close>;
  \<^item> the keys of a plain object are strings: \<^verbatim>\<open>listeners[handler]\<close> with a function
    as \<^verbatim>\<open>handler\<close> uses the string \<^verbatim>\<open>String(handler)\<close>, the text that
    \<^verbatim>\<open>Function.prototype.toString\<close> gives for it, as the key;
  \<^item> a plain object \<^verbatim>\<open>{}\<close> inherits the properties of \<^verbatim>\<open>Object.prototype\<close>, whose names
    are identifiers such as \<^verbatim>\<open>constructor\<close> and \<^verbatim>\<open>__proto__\<close>; a read finds them where
    the object has no property of its own under the name.
\<close>

datatype jsnum = Finite rat | PosInf | NegInf | NaN

datatype jsval = JUndefined | JNull | JBool bool | JNum jsnum | JStr string

datatype js_error = TypeError

fun truthy_num :: "jsnum \<Rightarrow> bool" where
  "truthy_num (Finite q) = (q \<noteq> 0)"
| "truthy_num PosInf = True"
| "truthy_num NegInf = True"
| "truthy_num NaN = False"

fun truthy :: "jsval \<Rightarrow> bool" where
  "truthy JUndefined = False"
| "truthy JNull = False"
| "truthy (JBool b) = b"
| "truthy (JNum n) = truthy_num n"
| "truthy (JStr s) = (s \<noteq> [])"

text \<open>The relation \<^verbatim>\<open>a < b\<close> on numbers; every comparison with NaN is false.\<close>

fun js_less :: "jsnum \<Rightarrow> jsnum \<Rightarrow> bool" where
  "js_less (Finite a) (Finite b) = (a < b)"
| "js_less (Finite a) PosInf = True"
| "js_less NegInf (Finite b) = True"
| "js_less NegInf PosInf = True"
| "js_less _ _ = False"

text \<open>
  \<^verbatim>\<open>Number.isInteger(v)\<close> holds exactly when \<open>integer_of v\<close> is \<open>Some n\<close>; \<open>n\<close> is then
  the integer.
\<close>

fun integer_of :: "jsval \<Rightarrow> int option" where
  "integer_of (JNum (Finite q)) = (if of_int \<lfloor>q\<rfloor> = q then Some \<lfloor>q\<rfloor> else None)"
| "integer_of _ = None"

definition isInteger :: "jsval \<Rightarrow> bool" where
  "isInteger v = (integer_of v \<noteq> None)"

text \<open>\<^verbatim>\<open>xs[i]\<close> on an array of strings, for an integer \<^verbatim>\<open>i\<close>.\<close>

definition array_at :: "string list \<Rightarrow> int \<Rightarrow> jsval" where
  "array_at xs i = (if 0 \<le> i \<and> i < int (length xs) then JStr (xs ! nat i) else JUndefined)"

text \<open>Reading a property that may be absent.\<close>

fun read_prop :: "jsval option \<Rightarrow> jsval" where
  "read_prop None = JUndefined"
| "read_prop (Some v) = v"


section \<open>Constants of the module\<close>

datatype event_name =
    Idle | Preparing | Prepared | Started | Paused | Updateplayinfo | Seeking | Seeked
  | Playbackcomplete | Playbackinterrupted | Erroroccurred | Exceptionhappened

fun MEDIA_PLAYER_EVENTS :: "event_name \<Rightarrow> string" where
  "MEDIA_PLAYER_EVENTS Idle = ''idle''"
| "MEDIA_PLAYER_EVENTS Preparing = ''preparing''"
| "MEDIA_PLAYER_EVENTS Prepared = ''prepared''"
| "MEDIA_PLAYER_EVENTS Started = ''started''"
| "MEDIA_PLAYER_EVENTS Paused = ''paused''"
| "MEDIA_PLAYER_EVENTS Updateplayinfo = ''updatePlayInfo''"
| "MEDIA_PLAYER_EVENTS Seeking = ''seeking''"
| "MEDIA_PLAYER_EVENTS Seeked = ''seeked''"
| "MEDIA_PLAYER_EVENTS Playbackcomplete = ''playbackComplete''"
| "MEDIA_PLAYER_EVENTS Playbackinterrupted = ''playbackInterrupted''"
| "MEDIA_PLAYER_EVENTS Erroroccurred = ''errorOccurred''"
| "MEDIA_PLAYER_EVENTS Exceptionhappened = ''exceptionHappened''"

definition EVENT_RESULTS :: "string list" where
  "EVENT_RESULTS =
    [''PLAYER_OK'',
     ''PLAYER_INVALID_URI'',
     ''PLAYER_INVALID_SOURCE'',
     ''PLAYER_DUPLICATED_URI'',
     ''PLAYER_INSTANCE_DISPOSED'',
     ''PLAYER_INVALID_STATE'',
     ''PLAYER_INVALID_INSTANCE_OR_POLICY'',
     ''PLAYER_NONE_POLICY'',
     ''PLAYER_FEATURE_NOT_SUPPORTED'',
     ''PLAYER_VALUE_IN_USE'',
     ''PLAYER_WRONG_RANGE_RATE'',
     ''PLAYER_POSITION_OUT_OF_RANGE'',
     ''PLAYER_SUBTITLE_EMPTY_PATH'',
     ''PLAYER_SUBTITLE_FILE_PATH_NOT_EXIST'',
     ''PLAYER_SUBTITLE_NULL_PATH'',
     ''PLAYER_SUBTITLE_FORMAT_NOT_SUPPORTED'',
     ''PLAYER_PLAYBACK_INTERRUPTED'',
     ''PLAYER_ERROR_OCCURED'',
     ''PLAYER_TO_BE_EXTENDED'']"


section \<open>Event payloads and handlers\<close>

text \<open>
  The payload object of a native event. The bridge reads \<^verbatim>\<open>ret_code\<close> and
  \<^verbatim>\<open>duration\<close> and writes \<^verbatim>\<open>EVENT_RESULT\<close>; every other property is carried along
  in \<open>other_props\<close>. \<open>None\<close> is a property the object does not have, which is not the
  same object as one holding the property with the value \<^verbatim>\<open>undefined\<close>. The native
  player reports a duration as a number, so \<open>event_duration\<close> is a number when present.
\<close>

record event_data =
  ret_code :: "jsval option"
  event_duration :: "jsnum option"
  EVENT_RESULT :: "jsval option"
  other_props :: "(string \<times> jsval) list"

text \<open>
  The parameter \<^verbatim>\<open>handler\<close> of \<^verbatim>\<open>addEventListener\<close> and \<^verbatim>\<open>removeEventListener\<close> has the
  type \<^verbatim>\<open>Function\<close>. The text that \<^verbatim>\<open>Function.prototype.toString\<close> gives for a function
  is the source text of a function, method, arrow function or class, or has the form
  \<^verbatim>\<open>function f() { [native code] }\<close>: it always holds a parenthesis, a brace or the
  \<^verbatim>\<open>=\<close> of an arrow, so it is never a bare identifier. \<open>function_text\<close> is the type
  of these texts; \<open>FunctionText s\<close> is the text \<open>s\<close> and \<open>source_text\<close> gives the string
  back.
\<close>

definition is_function_text :: "string \<Rightarrow> bool" where
  "is_function_text s = (CHR ''('' \<in> set s \<or> CHR ''{'' \<in> set s \<or> CHR ''='' \<in> set s)"

typedef function_text = "{s. is_function_text s}"
  morphisms source_text FunctionText
  by (rule exI [of _ "''() => 0''"]) (simp add: is_function_text_def)

text \<open>
  The names of the properties of \<^verbatim>\<open>Object.prototype\<close>, which every bucket inherits. None is
  the text of a function (lemma \<open>handler_key_not_inherited\<close>), so with a function as
  \<^verbatim>\<open>handler\<close> the read \<^verbatim>\<open>listeners[handler]\<close> finds a property of the bucket's own or
  nothing, and the assignment \<^verbatim>\<open>listeners[handler] = listener\<close> makes or replaces a
  property of the bucket's own.
\<close>

definition object_prototype_keys :: "string list" where
  "object_prototype_keys =
     [''constructor'', ''__defineGetter__'', ''__defineSetter__'', ''hasOwnProperty'',
      ''__lookupGetter__'', ''__lookupSetter__'', ''isPrototypeOf'', ''propertyIsEnumerable'',
      ''toString'', ''valueOf'', ''__proto__'', ''toLocaleString'']"

text \<open>
  A handler is a function object. \<open>Callback i t\<close> is an application function: \<open>i\<close> stands
  for its identity as an object and \<open>t\<close> is \<^verbatim>\<open>String(handler)\<close>. Two closures made from
  the same function expression are two objects with one text. \<open>CaptureDuration\<close> is the
  arrow function that \<^verbatim>\<open>init\<close> creates to record \<^verbatim>\<open>event.duration\<close>.
\<close>

datatype handler = Callback nat function_text | CaptureDuration

definition capture_duration_text :: string where
  "capture_duration_text =
     ''(event) => {'' @ [CHR 0x0A] @
     ''      this.duration = event.duration'' @ [CHR 0x0A] @
     ''    }''"

fun handler_key :: "handler \<Rightarrow> string" where
  "handler_key (Callback i t) = source_text t"
| "handler_key CaptureDuration = capture_duration_text"

text \<open>
  The first statement of the arrow function that \<^verbatim>\<open>addEventListener\<close> hands to the
  emitter:
  \<^verbatim>\<open>Number.isInteger(eventData.ret_code) && (eventData.EVENT_RESULT = EVENT_RESULTS[eventData.ret_code])\<close>
\<close>

definition decode_result :: "event_data \<Rightarrow> event_data" where
  "decode_result eventData =
     (case integer_of (read_prop (ret_code eventData)) of
        None \<Rightarrow> eventData
      | Some n \<Rightarrow> eventData\<lparr>EVENT_RESULT := Some (array_at EVENT_RESULTS n)\<rparr>)"


section \<open>The session: the singleton object, the registry and the native side\<close>

text \<open>
  \<open>duration_val\<close> is what \<^verbatim>\<open>this.duration\<close> can hold: \<^verbatim>\<open>null\<close> (the literal's value, and
  the value after \<^verbatim>\<open>init\<close>), the duration of a "prepared" event, or \<^verbatim>\<open>undefined\<close> when
  that event carried none.
\<close>

datatype duration_val = DurNull | DurUndefined | Dur jsnum

fun truthy_duration :: "duration_val \<Rightarrow> bool" where
  "truthy_duration (Dur n) = truthy_num n"
| "truthy_duration _ = False"

text \<open>The calls that the bridge makes on \<^verbatim>\<open>MediaPlayerModule\<close>.\<close>

datatype module_call = MInit jsval | MPlay | MPause | MStop | MSeekTo jsnum | MDeInit

text \<open>
  One record holds everything that the bridge reads or changes:
  \<^item> \<open>url\<close>, \<open>uri\<close>, \<open>duration\<close>, \<open>isPreparedEventReg\<close>: the properties of the
    \<^verbatim>\<open>MediaPlayer\<close> object. The literal defines \<^verbatim>\<open>url\<close> and \<^verbatim>\<open>duration\<close>; \<^verbatim>\<open>uri\<close> and
    \<^verbatim>\<open>_isPreparedEventReg\<close> do not exist before \<^verbatim>\<open>init\<close> assigns them, so they read
    as \<^verbatim>\<open>undefined\<close> (falsy).
  \<^item> \<open>subscriptions\<close>: the \<^verbatim>\<open>Map\<close> \<^verbatim>\<open>_subscriptions\<close>, from an event name to a plain
    object from \<^verbatim>\<open>String(handler)\<close> to a listener. Both keep insertion order, and an
    assignment to a key that exists keeps its place, as \<open>AList.update\<close> does. A
    listener is identified by the number of its subscription.
  \<^item> \<open>next_subscription\<close>, \<open>emitter_subscriptions\<close>, \<open>addListener_calls\<close>: the event
    emitter, with the subscriptions that are live, in the order of registration, and
    the trace of the calls of \<^verbatim>\<open>addListener\<close>.
  \<^item> \<open>module_calls\<close>: the trace of the calls forwarded to \<^verbatim>\<open>MediaPlayerModule\<close>;
    \<open>module_position\<close> is its property \<^verbatim>\<open>position\<close>.
  \<^item> \<open>invocations\<close>: the trace of the handlers invoked, each with the payload it got.
  \<^item> \<open>warnings\<close>: the messages given to \<^verbatim>\<open>console.warn\<close>.
\<close>

record player =
  url :: jsval
  uri :: jsval
  duration :: duration_val
  isPreparedEventReg :: bool
  subscriptions :: "(event_name \<times> (string \<times> nat) list) list"
  next_subscription :: nat
  emitter_subscriptions :: "(nat \<times> string \<times> handler) list"
  addListener_calls :: "(string \<times> handler) list"
  module_calls :: "module_call list"
  module_position :: jsval
  invocations :: "(handler \<times> event_data) list"
  warnings :: "string list"

definition initial_player :: "jsval \<Rightarrow> player" where
  "initial_player pos =
     \<lparr>url = JNull, uri = JUndefined, duration = DurNull, isPreparedEventReg = False,
      subscriptions = [], next_subscription = 0, emitter_subscriptions = [],
      addListener_calls = [], module_calls = [], module_position = pos,
      invocations = [], warnings = []\<rparr>"


subsection \<open>The event emitter\<close>

text \<open>
  Modelled from the spec: \<^verbatim>\<open>NativeEventEmitter\<close>, the event transport, whose source is
  not among the files of the bridge. The spec gives it the interface
  \<^verbatim>\<open>addListener(eventId, cb) -> {remove()}\<close> and has it deliver a named event with its
  payload to the registered listeners. Every call of \<^verbatim>\<open>addListener\<close> makes a new
  subscription; \<^verbatim>\<open>remove()\<close> on a subscription that is gone does nothing; an event
  goes to the live subscriptions of its type, in the order of registration, all of
  them with the same payload object.
\<close>

definition emitter_addListener :: "string \<Rightarrow> handler \<Rightarrow> player \<Rightarrow> nat \<times> player" where
  "emitter_addListener eventType h st =
     (next_subscription st,
      st\<lparr>next_subscription := Suc (next_subscription st),
         emitter_subscriptions := emitter_subscriptions st @ [(next_subscription st, eventType, h)],
         addListener_calls := addListener_calls st @ [(eventType, h)]\<rparr>)"

definition listener_remove :: "nat \<Rightarrow> player \<Rightarrow> player" where
  "listener_remove l st =
     st\<lparr>emitter_subscriptions := filter (\<lambda>s. fst s \<noteq> l) (emitter_subscriptions st)\<rparr>"

text \<open>
  Calling a handler. An application function is opaque: the model records the call and
  the payload, and takes the function not to call back into the bridge. The arrow
  function of \<^verbatim>\<open>init\<close> runs \<^verbatim>\<open>this.duration = event.duration\<close>.
\<close>

fun call_handler :: "handler \<Rightarrow> event_data \<Rightarrow> player \<Rightarrow> player" where
  "call_handler (Callback i t) eventData st =
     st\<lparr>invocations := invocations st @ [(Callback i t, eventData)]\<rparr>"
| "call_handler CaptureDuration eventData st =
     st\<lparr>duration := (case event_duration eventData of None \<Rightarrow> DurUndefined | Some d \<Rightarrow> Dur d),
        invocations := invocations st @ [(CaptureDuration, eventData)]\<rparr>"

text \<open>
  The arrow function that \<^verbatim>\<open>addEventListener\<close> registers for \<open>h\<close>: it decodes the
  result into the payload object, then calls \<open>h\<close> with that object.
\<close>

definition listener_callback :: "handler \<Rightarrow> event_data \<Rightarrow> player \<Rightarrow> event_data \<times> player" where
  "listener_callback h eventData st =
     (decode_result eventData, call_handler h (decode_result eventData) st)"

fun deliver :: "handler list \<Rightarrow> event_data \<Rightarrow> player \<Rightarrow> player" where
  "deliver [] eventData st = st"
| "deliver (h # hs) eventData st =
     (case listener_callback h eventData st of (eventData', st') \<Rightarrow> deliver hs eventData' st')"

definition receivers :: "string \<Rightarrow> player \<Rightarrow> handler list" where
  "receivers eventType st =
     map (\<lambda>s. snd (snd s)) (filter (\<lambda>s. fst (snd s) = eventType) (emitter_subscriptions st))"

definition emit :: "string \<Rightarrow> event_data \<Rightarrow> player \<Rightarrow> player" where
  "emit eventType eventData st = deliver (receivers eventType st) eventData st"


subsection \<open>addEventListener and removeEventListener\<close>

text \<open>
  \<^verbatim>\<open>addEventListener\<close> also returns an object whose \<^verbatim>\<open>remove\<close> calls
  \<^verbatim>\<open>removeEventListener(eventName, handler)\<close>; the model has that call itself.
\<close>

definition addEventListener :: "event_name \<Rightarrow> handler \<Rightarrow> player \<Rightarrow> player" where
  "addEventListener eventName h st =
     (case emitter_addListener (MEDIA_PLAYER_EVENTS eventName) h st of
        (listener, st1) \<Rightarrow>
          (let listeners = (case map_of (subscriptions st1) eventName of
                              None \<Rightarrow> [] | Some ls \<Rightarrow> ls);
               listeners' = AList.update (handler_key h) listener listeners
           in st1\<lparr>subscriptions := AList.update eventName listeners' (subscriptions st1)\<rparr>))"

definition removeEventListener :: "event_name \<Rightarrow> handler \<Rightarrow> player \<Rightarrow> player" where
  "removeEventListener eventName h st =
     (case map_of (subscriptions st) eventName of
        None \<Rightarrow> st
      | Some listeners \<Rightarrow>
          (let st1 = (case map_of listeners (handler_key h) of
                        None \<Rightarrow> st | Some l \<Rightarrow> listener_remove l st)
           in if length listeners = 1
              then st1\<lparr>subscriptions := AList.delete eventName (subscriptions st1)\<rparr>
              else st1\<lparr>subscriptions :=
                        AList.update eventName (AList.delete (handler_key h) listeners)
                          (subscriptions st1)\<rparr>))"


subsection \<open>The commands\<close>

text \<open>
  \<^verbatim>\<open>resolveAssetSource\<close> is a parameter: for the number of an asset it gives \<open>None\<close>
  when it returns \<^verbatim>\<open>null\<close>, on which reading \<^verbatim>\<open>.uri\<close> raises a \<^verbatim>\<open>TypeError\<close> before
  anything is assigned, and \<open>Some u\<close> when it returns an object whose \<^verbatim>\<open>uri\<close> is \<open>u\<close>.
\<close>

definition init :: "(int \<Rightarrow> jsval option) \<Rightarrow> jsval \<Rightarrow> player \<Rightarrow> js_error + player" where
  "init resolveAssetSource source st =
     (case (case integer_of source of
              Some n \<Rightarrow> resolveAssetSource n
            | None \<Rightarrow> Some source) of
        None \<Rightarrow> Inl TypeError
      | Some u \<Rightarrow>
          Inr (let st1 = st\<lparr>uri := u, duration := DurNull\<rparr>
               in if \<not> truthy (uri st1)
                  then st1\<lparr>warnings := warnings st1 @ [''uri should not be an empty'']\<rparr>
                  else (let st2 = st1\<lparr>module_calls := module_calls st1 @ [MInit (uri st1)]\<rparr>;
                            st3 = (if isPreparedEventReg st2 then st2
                                   else addEventListener Prepared CaptureDuration st2)
                        in st3\<lparr>isPreparedEventReg := True\<rparr>)))"

definition play :: "player \<Rightarrow> player" where
  "play st = (if truthy (uri st) then st\<lparr>module_calls := module_calls st @ [MPlay]\<rparr> else st)"

definition pause :: "player \<Rightarrow> player" where
  "pause st = (if truthy (uri st) then st\<lparr>module_calls := module_calls st @ [MPause]\<rparr> else st)"

definition stop :: "player \<Rightarrow> player" where
  "stop st = (if truthy (uri st) then st\<lparr>module_calls := module_calls st @ [MStop]\<rparr> else st)"

text \<open>The value that \<^verbatim>\<open>seekTo\<close> has in \<^verbatim>\<open>time\<close> after its first two statements.\<close>

definition seek_time :: "duration_val \<Rightarrow> jsnum \<Rightarrow> jsnum" where
  "seek_time dur time =
     (let time1 = (if js_less (Finite 0) time then time else Finite 0)
      in case dur of
           Dur d \<Rightarrow> (if truthy_num d then (if js_less time1 d then time1 else d) else time1)
         | _ \<Rightarrow> time1)"

definition seekTo :: "jsnum \<Rightarrow> player \<Rightarrow> player" where
  "seekTo time st =
     (if truthy (uri st)
      then st\<lparr>module_calls := module_calls st @ [MSeekTo (seek_time (duration st) time)]\<rparr>
      else st)"

definition position :: "player \<Rightarrow> jsval" where
  "position st = (if truthy (uri st) then module_position st else uri st)"

definition unregister_listeners :: "(string \<times> nat) list \<Rightarrow> player \<Rightarrow> player" where
  "unregister_listeners listeners st =
     fold (\<lambda>i s. case map_of listeners i of None \<Rightarrow> s | Some l \<Rightarrow> listener_remove l s)
       (map fst listeners) st"

definition unregisterEvents :: "player \<Rightarrow> player" where
  "unregisterEvents st =
     (fold unregister_listeners (map snd (subscriptions st)) st)\<lparr>subscriptions := []\<rparr>"

definition destroy :: "player \<Rightarrow> player" where
  "destroy st =
     (let st1 = unregisterEvents st
      in st1\<lparr>module_calls := module_calls st1 @ [MStop, MDeInit]\<rparr>)"


section \<open>Observations and sessions\<close>

text \<open>
  \<open>registry_entry st eventName k\<close> is \<^verbatim>\<open>_subscriptions.get(eventName)[k]\<close>: the listener
  that the registry holds for the event name under the key \<open>k\<close>, if any.
\<close>

definition registry_entry :: "player \<Rightarrow> event_name \<Rightarrow> string \<Rightarrow> nat option" where
  "registry_entry st eventName k =
     (case map_of (subscriptions st) eventName of None \<Rightarrow> None | Some ls \<Rightarrow> map_of ls k)"

text \<open>
  The handlers that a native event of type \<open>eventType\<close> invokes in the state \<open>st\<close>, in
  the order of the calls, read from what the event adds to the trace of invocations.
\<close>

definition invoked :: "string \<Rightarrow> event_data \<Rightarrow> player \<Rightarrow> handler list" where
  "invoked eventType eventData st =
     map fst (drop (length (invocations st)) (invocations (emit eventType eventData st)))"

text \<open>
  How many times \<^verbatim>\<open>addListener\<close> was called to register the arrow function of
  \<^verbatim>\<open>init\<close> for "prepared".
\<close>

definition capture_registrations :: "player \<Rightarrow> nat" where
  "capture_registrations st =
     length (filter (\<lambda>c. c = (MEDIA_PLAYER_EVENTS Prepared, CaptureDuration)) (addListener_calls st))"

text \<open>
  A session is a sequence of calls by the application and of events from the native
  side. The application has no reference to the arrow function of \<^verbatim>\<open>init\<close>, so the
  handlers that it passes are its own functions. A call of \<^verbatim>\<open>init\<close> that raises leaves
  the state as it was. \<^verbatim>\<open>position()\<close> changes nothing.
\<close>

datatype api_call =
    CallInit jsval | CallPlay | CallPause | CallStop | CallSeekTo jsnum | CallPosition
  | CallDestroy
  | CallAddEventListener event_name nat function_text
  | CallRemoveEventListener event_name nat function_text
  | NativeEvent string event_data

fun step :: "(int \<Rightarrow> jsval option) \<Rightarrow> api_call \<Rightarrow> player \<Rightarrow> player" where
  "step resolveAssetSource (CallInit source) st =
     (case init resolveAssetSource source st of Inl e \<Rightarrow> st | Inr st' \<Rightarrow> st')"
| "step resolveAssetSource CallPlay st = play st"
| "step resolveAssetSource CallPause st = pause st"
| "step resolveAssetSource CallStop st = stop st"
| "step resolveAssetSource (CallSeekTo time) st = seekTo time st"
| "step resolveAssetSource CallPosition st = st"
| "step resolveAssetSource CallDestroy st = destroy st"
| "step resolveAssetSource (CallAddEventListener eventName i t) st =
     addEventListener eventName (Callback i t) st"
| "step resolveAssetSource (CallRemoveEventListener eventName i t) st =
     removeEventListener eventName (Callback i t) st"
| "step resolveAssetSource (NativeEvent eventType eventData) st = emit eventType eventData st"

definition run :: "(int \<Rightarrow> jsval option) \<Rightarrow> api_call list \<Rightarrow> player \<Rightarrow> player" where
  "run resolveAssetSource calls st = fold (step resolveAssetSource) calls st"

text \<open>
  A source is valid for \<^verbatim>\<open>init\<close> when the expression
  \<^verbatim>\<open>Number.isInteger(source) ? resolveAssetSource(source).uri : source\<close> does not raise and
  gives a truthy URI.
\<close>

definition valid_source :: "(int \<Rightarrow> jsval option) \<Rightarrow> jsval \<Rightarrow> bool" where
  "valid_source resolveAssetSource source =
     (case integer_of source of
        Some n \<Rightarrow> (case resolveAssetSource n of None \<Rightarrow> False | Some u \<Rightarrow> truthy u)
      | None \<Rightarrow> truthy source)"

text \<open>The guard of \<^verbatim>\<open>init\<close>: the flag is set exactly when the registration was made.\<close>

definition capture_guard :: "player \<Rightarrow> bool" where
  "capture_guard st = (capture_registrations st = (if isPreparedEventReg st then 1 else 0))"

text \<open>Payloads and sessions used as examples.\<close>

definition payload_ok :: event_data where
  "payload_ok = \<lparr>ret_code = Some (JNum (Finite 0)), event_duration = None,
                 EVENT_RESULT = None, other_props = []\<rparr>"

definition payload_code :: "jsval option \<Rightarrow> event_data" where
  "payload_code c = \<lparr>ret_code = c, event_duration = None, EVENT_RESULT = None, other_props = []\<rparr>"

definition payload_prepared :: "rat \<Rightarrow> event_data" where
  "payload_prepared d = \<lparr>ret_code = Some (JNum (Finite 0)), event_duration = Some (Finite d),
                          EVENT_RESULT = None, other_props = []\<rparr>"

definition no_assets :: "int \<Rightarrow> jsval option" where
  "no_assets n = None"

definition one_asset :: "int \<Rightarrow> jsval option" where
  "one_asset n = (if n = 7 then Some (JStr ''asset_7.mp3'') else None)"

text \<open>
  The session \<^verbatim>\<open>init('a.mp3')\<close> followed by the native event "prepared" that reports
  the duration \<open>d\<close>.
\<close>

definition prepared_session :: "rat \<Rightarrow> player" where
  "prepared_session d =
     run no_assets [CallInit (JStr ''a.mp3''), NativeEvent ''prepared'' (payload_prepared d)]
       (initial_player JNull)"


section \<open>Properties of the definitions\<close>

subsection \<open>The keys of handlers\<close>

lemma source_text_FunctionText: "is_function_text s \<Longrightarrow> source_text (FunctionText s) = s"
  by (simp add: FunctionText_inverse)

lemma is_function_text_source_text: "is_function_text (source_text t)"
  using source_text [of t] by simp

lemma is_function_text_handler_key: "is_function_text (handler_key h)"
  by (cases h) (simp_all add: is_function_text_source_text, simp add: is_function_text_def
      capture_duration_text_def)

lemma object_prototype_keys_no_function_text:
  "k \<in> set object_prototype_keys \<Longrightarrow> \<not> is_function_text k"
  by (auto simp: object_prototype_keys_def is_function_text_def)

lemma handler_key_not_inherited: "handler_key h \<notin> set object_prototype_keys"
  using is_function_text_handler_key [of h] object_prototype_keys_no_function_text by blast

subsection \<open>The table of results\<close>

lemma array_at_outside: "i < 0 \<or> int (length xs) \<le> i \<Longrightarrow> array_at xs i = JUndefined"
  by (auto simp: array_at_def)

lemma array_at_EVENT_RESULTS_0: "array_at EVENT_RESULTS 0 = JStr ''PLAYER_OK''"
  by (simp add: array_at_def EVENT_RESULTS_def)
lemma array_at_EVENT_RESULTS_17: "array_at EVENT_RESULTS 17 = JStr ''PLAYER_ERROR_OCCURED''"
  by (simp add: array_at_def EVENT_RESULTS_def)
lemma array_at_EVENT_RESULTS_18: "array_at EVENT_RESULTS 18 = JStr ''PLAYER_TO_BE_EXTENDED''"
  by (simp add: array_at_def EVENT_RESULTS_def)

lemma length_EVENT_RESULTS: "length EVENT_RESULTS = 19"
  by (simp add: EVENT_RESULTS_def)

lemma array_at_EVENT_RESULTS_outside: "n < 0 \<or> 18 < n \<Longrightarrow> array_at EVENT_RESULTS n = JUndefined"
  by (rule array_at_outside) (auto simp: length_EVENT_RESULTS)


lemma integer_of_fraction: "integer_of (JNum (Finite (7 / 2))) = None"
proof -
  have "\<lfloor>7 / 2 :: rat\<rfloor> = 3"
    by (rule floor_unique) simp_all
  then show ?thesis by simp
qed

subsection \<open>Seeking\<close>

lemma seek_time_known:
  "0 < d \<Longrightarrow> seek_time (Dur (Finite d)) (Finite t) = Finite (max 0 (min t d))"
  by (auto simp: seek_time_def Let_def max_def min_def)

lemma seek_time_known_other:
  "0 < d \<Longrightarrow> seek_time (Dur (Finite d)) NaN = Finite 0"
  "0 < d \<Longrightarrow> seek_time (Dur (Finite d)) NegInf = Finite 0"
  "0 < d \<Longrightarrow> seek_time (Dur (Finite d)) PosInf = Finite d"
  by (simp_all add: seek_time_def)

lemma seek_time_unknown:
  "\<not> truthy_duration dur \<Longrightarrow>
     seek_time dur time = (if js_less (Finite 0) time then time else Finite 0)"
  by (cases dur) (simp_all add: seek_time_def)

subsection \<open>Delivery of events and teardown\<close>

lemma decode_result_idem: "decode_result (decode_result e) = decode_result e"
  by (simp add: decode_result_def split: option.splits)

lemma invocations_call_handler:
  "invocations (call_handler h e st) = invocations st @ [(h, e)]"
  by (cases h) simp_all

lemma invocations_deliver:
  "invocations (deliver hs e st) =
     (if hs = [] then invocations st
      else invocations st @ map (\<lambda>h. (h, decode_result e)) hs)"
  by (induction hs arbitrary: e st)
     (auto simp: listener_callback_def invocations_call_handler decode_result_idem)

lemma invoked_receivers: "invoked t e st = receivers t st"
  by (simp add: invoked_def emit_def invocations_deliver comp_def)

lemma call_handler_frame:
  "uri (call_handler h e st) = uri st"
  "isPreparedEventReg (call_handler h e st) = isPreparedEventReg st"
  "subscriptions (call_handler h e st) = subscriptions st"
  "next_subscription (call_handler h e st) = next_subscription st"
  "emitter_subscriptions (call_handler h e st) = emitter_subscriptions st"
  "addListener_calls (call_handler h e st) = addListener_calls st"
  "module_calls (call_handler h e st) = module_calls st"
  by (cases h; simp)+

lemma deliver_frame:
  "uri (deliver hs e st) = uri st"
  "isPreparedEventReg (deliver hs e st) = isPreparedEventReg st"
  "subscriptions (deliver hs e st) = subscriptions st"
  "next_subscription (deliver hs e st) = next_subscription st"
  "emitter_subscriptions (deliver hs e st) = emitter_subscriptions st"
  "addListener_calls (deliver hs e st) = addListener_calls st"
  "module_calls (deliver hs e st) = module_calls st"
  by (induction hs arbitrary: e st; simp add: listener_callback_def call_handler_frame)+

lemma filter_subscriptions_cong:
  "(\<And>s. s \<in> set (emitter_subscriptions st) \<Longrightarrow> P s = Q s) \<Longrightarrow>
     st\<lparr>emitter_subscriptions := filter P (emitter_subscriptions st)\<rparr> =
     st\<lparr>emitter_subscriptions := filter Q (emitter_subscriptions st)\<rparr>"
proof -
  assume "\<And>s. s \<in> set (emitter_subscriptions st) \<Longrightarrow> P s = Q s"
  then have "filter P (emitter_subscriptions st) = filter Q (emitter_subscriptions st)"
    by (intro filter_cong) auto
  then show ?thesis by simp
qed

lemma fold_listener_remove:
  "fold (\<lambda>i s. case m i of None \<Rightarrow> s | Some l \<Rightarrow> listener_remove l s) ks st =
     st\<lparr>emitter_subscriptions :=
          filter (\<lambda>s. \<forall>i \<in> set ks. m i \<noteq> Some (fst s)) (emitter_subscriptions st)\<rparr>"
proof (induction ks arbitrary: st)
  case Nil
  show ?case by simp
next
  case (Cons k ks)
  show ?case
  proof (cases "m k")
    case None
    then show ?thesis by (simp add: Cons.IH)
  next
    case (Some l)
    then have "fold (\<lambda>i s. case m i of None \<Rightarrow> s | Some l \<Rightarrow> listener_remove l s) (k # ks) st =
        st\<lparr>emitter_subscriptions :=
             filter (\<lambda>s. fst s \<noteq> l \<and> (\<forall>i \<in> set ks. m i \<noteq> Some (fst s)))
               (emitter_subscriptions st)\<rparr>"
      by (simp add: Cons.IH listener_remove_def conj_commute)
    also have "\<dots> = st\<lparr>emitter_subscriptions :=
             filter (\<lambda>s. \<forall>i \<in> set (k # ks). m i \<noteq> Some (fst s)) (emitter_subscriptions st)\<rparr>"
      using Some by (intro filter_subscriptions_cong) auto
    finally show ?thesis .
  qed
qed

lemma unregister_listeners_eq:
  "unregister_listeners ls st =
     st\<lparr>emitter_subscriptions :=
          filter (\<lambda>s. \<forall>i \<in> set (map fst ls). map_of ls i \<noteq> Some (fst s))
            (emitter_subscriptions st)\<rparr>"
  unfolding unregister_listeners_def by (rule fold_listener_remove)

lemma fold_unregister_listeners:
  "fold unregister_listeners lss st =
     st\<lparr>emitter_subscriptions :=
          filter (\<lambda>s. \<forall>ls \<in> set lss. \<forall>i \<in> set (map fst ls). map_of ls i \<noteq> Some (fst s))
            (emitter_subscriptions st)\<rparr>"
proof (induction lss arbitrary: st)
  case Nil
  show ?case by simp
next
  case (Cons ls lss)
  have "fold unregister_listeners (ls # lss) st =
      fold unregister_listeners lss (unregister_listeners ls st)"
    by simp
  also have "\<dots> = st\<lparr>emitter_subscriptions :=
      filter (\<lambda>s. (\<forall>i \<in> set (map fst ls). map_of ls i \<noteq> Some (fst s)) \<and>
                 (\<forall>ls \<in> set lss. \<forall>i \<in> set (map fst ls). map_of ls i \<noteq> Some (fst s)))
        (emitter_subscriptions st)\<rparr>"
    unfolding Cons.IH unregister_listeners_eq by (simp add: conj_commute)
  also have "\<dots> = st\<lparr>emitter_subscriptions :=
      filter (\<lambda>s. \<forall>ls \<in> set (ls # lss). \<forall>i \<in> set (map fst ls). map_of ls i \<noteq> Some (fst s))
        (emitter_subscriptions st)\<rparr>"
    by (intro filter_subscriptions_cong) auto
  finally show ?case .
qed

lemma unregisterEvents_eq:
  "unregisterEvents st =
     st\<lparr>emitter_subscriptions :=
          filter (\<lambda>s. \<forall>ls \<in> set (map snd (subscriptions st)).
                    \<forall>i \<in> set (map fst ls). map_of ls i \<noteq> Some (fst s))
            (emitter_subscriptions st),
        subscriptions := []\<rparr>"
  unfolding unregisterEvents_def fold_unregister_listeners by simp

lemma destroy_eq:
  "destroy st =
     st\<lparr>emitter_subscriptions :=
          filter (\<lambda>s. \<forall>ls \<in> set (map snd (subscriptions st)).
                    \<forall>i \<in> set (map fst ls). map_of ls i \<noteq> Some (fst s))
            (emitter_subscriptions st),
        subscriptions := [],
        module_calls := module_calls st @ [MStop, MDeInit]\<rparr>"
  unfolding destroy_def unregisterEvents_eq by simp


subsection \<open>The guard of the duration listener\<close>

lemma addEventListener_fields:
  "addListener_calls (addEventListener E h st) = addListener_calls st @ [(MEDIA_PLAYER_EVENTS E, h)]"
  "isPreparedEventReg (addEventListener E h st) = isPreparedEventReg st"
  "emitter_subscriptions (addEventListener E h st) =
     emitter_subscriptions st @ [(next_subscription st, MEDIA_PLAYER_EVENTS E, h)]"
  "subscriptions (addEventListener E h st) =
     AList.update E
       (AList.update (handler_key h) (next_subscription st)
          (case map_of (subscriptions st) E of None \<Rightarrow> [] | Some ls \<Rightarrow> ls))
       (subscriptions st)"
  by (simp_all add: addEventListener_def emitter_addListener_def Let_def)

lemma removeEventListener_frame:
  "addListener_calls (removeEventListener E h st) = addListener_calls st"
  "isPreparedEventReg (removeEventListener E h st) = isPreparedEventReg st"
  by (simp_all add: removeEventListener_def listener_remove_def Let_def split: option.splits)

lemma emit_frame:
  "addListener_calls (emit t e st) = addListener_calls st"
  "isPreparedEventReg (emit t e st) = isPreparedEventReg st"
  by (simp_all add: emit_def deliver_frame)

lemma init_capture_guard:
  "capture_guard st \<Longrightarrow> init r source st = Inr st' \<Longrightarrow> capture_guard st'"
  by (auto simp: init_def capture_guard_def capture_registrations_def Let_def
        addEventListener_fields split: option.splits if_splits)

lemma step_capture_guard: "capture_guard st \<Longrightarrow> capture_guard (step r c st)"
proof (cases c)
  case (CallInit source)
  assume "capture_guard st"
  then show ?thesis using CallInit init_capture_guard [of st r source]
    by (cases "init r source st") simp_all
qed (auto simp: capture_guard_def capture_registrations_def play_def pause_def stop_def
       seekTo_def destroy_eq addEventListener_fields removeEventListener_frame emit_frame
       split: if_splits)

lemma run_capture_guard: "capture_guard st \<Longrightarrow> capture_guard (run r cs st)"
  unfolding run_def by (induction cs arbitrary: st) (simp_all add: step_capture_guard)

lemma initial_capture_guard: "capture_guard (initial_player p)"
  by (simp add: capture_guard_def capture_registrations_def initial_player_def)

lemma init_sets_flag:
  "init r source st = Inr st' \<Longrightarrow> truthy (uri st') \<Longrightarrow> isPreparedEventReg st'"
  by (auto simp: init_def Let_def split: option.splits if_splits)

lemma init_valid_source:
  "valid_source r source \<Longrightarrow> \<exists>st'. init r source st = Inr st' \<and> isPreparedEventReg st'"
  by (auto simp: valid_source_def init_def Let_def split: option.splits)

lemma init_invalid_source:
  "\<not> valid_source r source \<Longrightarrow> init r source st = Inr st' \<Longrightarrow>
     isPreparedEventReg st' = isPreparedEventReg st"
  by (auto simp: valid_source_def init_def Let_def split: option.splits)

lemma step_valid_init: "valid_source r source \<Longrightarrow> isPreparedEventReg (step r (CallInit source) st)"
  using init_valid_source [of r source st] by auto

lemma step_keeps_flag: "isPreparedEventReg st \<Longrightarrow> isPreparedEventReg (step r c st)"
proof (cases c)
  case (CallInit source)
  assume "isPreparedEventReg st"
  then show ?thesis using CallInit
    by (auto simp: init_def Let_def split: option.splits sum.splits)
qed (simp_all add: play_def pause_def stop_def seekTo_def destroy_eq addEventListener_fields
       removeEventListener_frame emit_frame)

lemma step_keeps_flag_unset:
  assumes "\<not> isPreparedEventReg st" "\<And>source. c = CallInit source \<Longrightarrow> \<not> valid_source r source"
  shows "\<not> isPreparedEventReg (step r c st)"
proof (cases c)
  case (CallInit source)
  with assms(2) have "\<not> valid_source r source" by simp
  with assms(1) CallInit show ?thesis
    using init_invalid_source [of r source st]
    by (cases "init r source st") simp_all
qed (use assms(1) in \<open>simp_all add: play_def pause_def stop_def seekTo_def destroy_eq
       addEventListener_fields removeEventListener_frame emit_frame\<close>)

lemma run_Cons: "run r (c # cs) st = run r cs (step r c st)"
  by (simp add: run_def)

lemma run_keeps_flag: "isPreparedEventReg st \<Longrightarrow> isPreparedEventReg (run r cs st)"
  by (induction cs arbitrary: st) (simp_all add: run_Cons step_keeps_flag, simp add: run_def)

lemma run_valid_init_sets_flag:
  "CallInit source \<in> set cs \<Longrightarrow> valid_source r source \<Longrightarrow> isPreparedEventReg (run r cs st)"
proof (induction cs arbitrary: st)
  case Nil
  then show ?case by simp
next
  case (Cons c cs)
  show ?case
  proof (cases "c = CallInit source")
    case True
    from Cons.prems(2) have "isPreparedEventReg (step r (CallInit source) st)"
      by (rule step_valid_init)
    with True have "isPreparedEventReg (step r c st)"
      by (simp only:)
    then show ?thesis by (simp add: run_Cons run_keeps_flag)
  next
    case False
    with Cons.prems have "CallInit source \<in> set cs" by simp
    with Cons.IH Cons.prems(2) show ?thesis by (simp add: run_Cons)
  qed
qed

lemma run_no_valid_init_keeps_flag_unset:
  "\<not> isPreparedEventReg st \<Longrightarrow>
   (\<And>source. CallInit source \<in> set cs \<Longrightarrow> \<not> valid_source r source) \<Longrightarrow>
     \<not> isPreparedEventReg (run r cs st)"
proof (induction cs arbitrary: st)
  case Nil
  then show ?case by (simp add: run_def)
next
  case (Cons c cs)
  have "\<not> isPreparedEventReg (step r c st)"
    using Cons.prems by (intro step_keeps_flag_unset) auto
  then show ?case using Cons.IH Cons.prems(2) by (simp add: run_Cons)
qed

subsection \<open>The registry\<close>

lemma map_of_update_same: "map_of (AList.update k v al) k = Some v"
  by (simp add: update_conv')

lemma map_of_delete_same: "map_of (AList.delete k al) k = None"
  by (simp add: delete_conv')

lemma removeEventListener_after_add:
  "removeEventListener E h (addEventListener E h st) =
     (let ls = AList.update (handler_key h) (next_subscription st)
                 (case map_of (subscriptions st) E of None \<Rightarrow> [] | Some ls \<Rightarrow> ls);
          st1 = addEventListener E h st;
          st2 = listener_remove (next_subscription st) st1
      in if length ls = 1
         then st2\<lparr>subscriptions := AList.delete E (subscriptions st2)\<rparr>
         else st2\<lparr>subscriptions :=
                  AList.update E (AList.delete (handler_key h) ls) (subscriptions st2)\<rparr>)"
  by (simp add: removeEventListener_def [of E h "addEventListener E h st"]
        addEventListener_fields map_of_update_same Let_def)

lemma receivers_listener_remove_add:
  "receivers t (listener_remove (next_subscription st) (addEventListener E h st)) =
     receivers t (listener_remove (next_subscription st) st)"
  by (simp add: receivers_def listener_remove_def addEventListener_fields)

lemma receivers_listener_remove_subset:
  "set (receivers t (listener_remove l st)) \<subseteq> set (receivers t st)"
  by (auto simp: receivers_def listener_remove_def)

lemmas eval_defs =
  addEventListener_def emitter_addListener_def removeEventListener_def listener_remove_def
  initial_player_def receivers_def registry_entry_def Let_def
  source_text_FunctionText is_function_text_def

text \<open>
  \<^verbatim>\<open>addEventListener(E, H)\<close> followed by \<^verbatim>\<open>removeEventListener(E, H)\<close> leaves the registry
  with no entry for \<open>E\<close> under the key of \<open>H\<close>. The pair of calls removes the listener
  that it made and no other: a native event for \<open>E\<close> emitted after them invokes \<open>H\<close> only
  if a listener of \<open>H\<close> for \<open>E\<close> was live in the emitter before them.
\<close>

lemma add_then_remove_fresh:
  "registry_entry (removeEventListener E h (addEventListener E h st)) E (handler_key h) = None \<and>
   (h \<notin> set (receivers (MEDIA_PLAYER_EVENTS E) st) \<longrightarrow>
      h \<notin> set (invoked (MEDIA_PLAYER_EVENTS E) eventData
                 (removeEventListener E h (addEventListener E h st))))"
proof -
  let ?st' = "removeEventListener E h (addEventListener E h st)"
  have entry: "registry_entry ?st' E (handler_key h) = None"
    by (simp add: removeEventListener_after_add registry_entry_def Let_def listener_remove_def
          map_of_update_same map_of_delete_same)
  have "receivers t ?st' = receivers t (listener_remove (next_subscription st) st)" for t
    by (simp add: removeEventListener_after_add Let_def receivers_def listener_remove_def
          addEventListener_fields)
  then have "set (receivers t ?st') \<subseteq> set (receivers t st)" for t
    using receivers_listener_remove_subset [of t "next_subscription st" st] by simp
  with entry show ?thesis
    by (auto simp: invoked_receivers)
qed

lemma remove_unregistered_keeps_listeners:
  "registry_entry st E (handler_key h) = None \<Longrightarrow>
     emitter_subscriptions (removeEventListener E h st) = emitter_subscriptions st"
  by (simp add: removeEventListener_def registry_entry_def Let_def split: option.splits)

lemma remove_unregistered_larger_bucket:
  assumes "map_of (subscriptions st) E = Some ls" "map_of ls (handler_key h) = None"
    "length ls \<noteq> 1"
  shows "removeEventListener E h st = st"
proof -
  from assms(2) have "handler_key h \<notin> fst ` set ls"
    by (simp add: map_of_eq_None_iff)
  then have "AList.delete (handler_key h) ls = ls" by simp
  moreover from assms(1) have "AList.update E ls (subscriptions st) = subscriptions st"
    by (rule update_triv)
  ultimately show ?thesis using assms
    by (simp add: removeEventListener_def Let_def)
qed

lemma remove_other_handler:
  assumes ls: "map_of (subscriptions st) E = Some ls"
    and l1: "map_of ls (handler_key h1) = Some l1"
    and l2: "map_of ls (handler_key h2) = Some l2"
    and keys: "handler_key h1 \<noteq> handler_key h2"
    and neq: "l1 \<noteq> l2"
    and live: "(l2, MEDIA_PLAYER_EVENTS E, h2) \<in> set (emitter_subscriptions st)"
  shows "registry_entry (removeEventListener E h1 st) E (handler_key h2) = Some l2 \<and>
         h2 \<in> set (invoked (MEDIA_PLAYER_EVENTS E) eventData (removeEventListener E h1 st))"
proof -
  have len: "length ls \<noteq> 1"
  proof
    assume "length ls = 1"
    then obtain p where "ls = [p]" by (cases ls) auto
    with l1 l2 keys show False by (auto split: if_splits)
  qed
  have st': "removeEventListener E h1 st =
      (listener_remove l1 st)\<lparr>subscriptions :=
         AList.update E (AList.delete (handler_key h1) ls) (subscriptions st)\<rparr>"
    using ls l1 len by (simp add: removeEventListener_def Let_def listener_remove_def)
  have "registry_entry (removeEventListener E h1 st) E (handler_key h2) = Some l2"
    using keys l2 by (simp add: st' registry_entry_def map_of_update_same)
  moreover have "(l2, MEDIA_PLAYER_EVENTS E, h2) \<in> set (emitter_subscriptions (removeEventListener E h1 st))"
    using live neq by (simp add: st' listener_remove_def)
  then have "h2 \<in> set (receivers (MEDIA_PLAYER_EVENTS E) (removeEventListener E h1 st))"
    by (force simp: receivers_def)
  ultimately show ?thesis by (simp add: invoked_receivers)
qed


lemma prepared_session_fields:
  "uri (prepared_session d) = JStr ''a.mp3''"
  "duration (prepared_session d) = Dur (Finite d)"
  "module_calls (prepared_session d) = [MInit (JStr ''a.mp3'')]"
  "isPreparedEventReg (prepared_session d)"
  "subscriptions (prepared_session d) = [(Prepared, [(capture_duration_text, 0)])]"
  "emitter_subscriptions (prepared_session d) = [(0, ''prepared'', CaptureDuration)]"
  "addListener_calls (prepared_session d) = [(''prepared'', CaptureDuration)]"
  "next_subscription (prepared_session d) = 1"
  by (simp_all add: prepared_session_def run_def init_def no_assets_def emit_def
        listener_callback_def payload_prepared_def decode_result_def eval_defs)

section \<open>The claims\<close>

text \<open>
  Claim C1, as the code has it. The table \<^verbatim>\<open>EVENT_RESULTS\<close> has nineteen entries, with
  indices 0 to 18. The listener that \<^verbatim>\<open>addEventListener\<close> registers gives the handler a
  payload whose \<^verbatim>\<open>EVENT_RESULT\<close> is \<^verbatim>\<open>"PLAYER_OK"\<close> for \<^verbatim>\<open>ret_code\<close> 0,
  \<^verbatim>\<open>"PLAYER_ERROR_OCCURED"\<close> for 17 and \<^verbatim>\<open>"PLAYER_TO_BE_EXTENDED"\<close> for 18. A payload whose
  \<^verbatim>\<open>ret_code\<close> is absent or is not an integer reaches the handler unchanged, with no
  \<^verbatim>\<open>EVENT_RESULT\<close> added.
\<close>

theorem decoder_table:
  "fst (listener_callback h (eventData\<lparr>ret_code := Some (JNum (Finite 0))\<rparr>) st) =
     eventData\<lparr>ret_code := Some (JNum (Finite 0)), EVENT_RESULT := Some (JStr ''PLAYER_OK'')\<rparr> \<and>
   fst (listener_callback h (eventData\<lparr>ret_code := Some (JNum (Finite 17))\<rparr>) st) =
     eventData\<lparr>ret_code := Some (JNum (Finite 17)),
               EVENT_RESULT := Some (JStr ''PLAYER_ERROR_OCCURED'')\<rparr> \<and>
   fst (listener_callback h (eventData\<lparr>ret_code := Some (JNum (Finite 18))\<rparr>) st) =
     eventData\<lparr>ret_code := Some (JNum (Finite 18)),
               EVENT_RESULT := Some (JStr ''PLAYER_TO_BE_EXTENDED'')\<rparr> \<and>
   invocations (snd (listener_callback h eventData st)) =
     invocations st @ [(h, fst (listener_callback h eventData st))] \<and>
   (\<not> isInteger (read_prop (ret_code eventData)) \<longrightarrow>
      fst (listener_callback h eventData st) = eventData)"
  by (simp add: listener_callback_def decode_result_def isInteger_def invocations_call_handler
      array_at_EVENT_RESULTS_0 array_at_EVENT_RESULTS_17 array_at_EVENT_RESULTS_18)

theorem decoder_table_witness:
  "\<not> isInteger (read_prop (ret_code (payload_code None))) \<and>
   fst (listener_callback (Callback 0 (FunctionText ''function f() {}'')) (payload_code None) (initial_player JNull)) =
     payload_code None \<and>
   EVENT_RESULT (fst (listener_callback (Callback 0 (FunctionText ''function f() {}'')) (payload_code None)
     (initial_player JNull))) = None \<and>
   \<not> isInteger (read_prop (ret_code (payload_code (Some (JStr ''0''))))) \<and>
   fst (listener_callback (Callback 0 (FunctionText ''function f() {}'')) (payload_code (Some (JStr ''0'')))
     (initial_player JNull)) = payload_code (Some (JStr ''0'')) \<and>
   \<not> isInteger (read_prop (ret_code (payload_code (Some (JNum (Finite (7 / 2))))))) \<and>
   fst (listener_callback (Callback 0 (FunctionText ''function f() {}'')) (payload_code (Some (JNum (Finite (7 / 2)))))
     (initial_player JNull)) = payload_code (Some (JNum (Finite (7 / 2))))"
  using decoder_table [of "Callback 0 (FunctionText ''function f() {}'')" "payload_code None" "initial_player JNull"]
    decoder_table [of "Callback 0 (FunctionText ''function f() {}'')" "payload_code (Some (JStr ''0''))" "initial_player JNull"]
    decoder_table [of "Callback 0 (FunctionText ''function f() {}'')" "payload_code (Some (JNum (Finite (7 / 2))))"
      "initial_player JNull"]
  by (simp add: isInteger_def payload_code_def integer_of_fraction del: integer_of.simps(1))

text \<open>
  Claim C1 as stated has \<^verbatim>\<open>ret_code\<close> 17 decoded to \<^verbatim>\<open>"PLAYER_TO_BE_EXTENDED"\<close>. The code
  decodes 17 to \<^verbatim>\<open>"PLAYER_ERROR_OCCURED"\<close>.
\<close>

theorem decoder_17_counterexample:
  "EVENT_RESULT (fst (listener_callback (Callback 0 (FunctionText ''function f() {}'')) (payload_code (Some (JNum (Finite 17))))
     (initial_player JNull))) = Some (JStr ''PLAYER_ERROR_OCCURED'') \<and>
   EVENT_RESULT (fst (listener_callback (Callback 0 (FunctionText ''function f() {}'')) (payload_code (Some (JNum (Finite 17))))
     (initial_player JNull))) \<noteq> Some (JStr ''PLAYER_TO_BE_EXTENDED'')"
  by (simp add: listener_callback_def decode_result_def payload_code_def array_at_EVENT_RESULTS_17)

text \<open>
  Claim C2, at a failing input. The registry holds one handler for "started", under the
  key \<^verbatim>\<open>function onStarted() {}\<close>. \<^verbatim>\<open>removeEventListener\<close> is called for "started" with a handler of
  another text, which the registry does not hold. No listener is removed from the
  emitter, but the bucket of "started" is deleted, since it has exactly one property:
  the registry no longer holds the listener of the handler that is registered.
\<close>

theorem remove_unknown_handler_drops_bucket:
  "registry_entry (addEventListener Started (Callback 1 (FunctionText ''function onStarted() {}'')) (initial_player JNull))
      Started ''function otherHandler() {}'' = None \<and>
   subscriptions (addEventListener Started (Callback 1 (FunctionText ''function onStarted() {}'')) (initial_player JNull))
     = [(Started, [(''function onStarted() {}'', 0)])] \<and>
   subscriptions (removeEventListener Started (Callback 2 (FunctionText ''function otherHandler() {}''))
      (addEventListener Started (Callback 1 (FunctionText ''function onStarted() {}'')) (initial_player JNull))) = [] \<and>
   emitter_subscriptions (removeEventListener Started (Callback 2 (FunctionText ''function otherHandler() {}''))
      (addEventListener Started (Callback 1 (FunctionText ''function onStarted() {}'')) (initial_player JNull)))
     = [(0, ''started'', Callback 1 (FunctionText ''function onStarted() {}''))]"
  by (simp add: eval_defs)

text \<open>
  Claim C3, at a failing input. A handler is registered for "started", and then
  \<^verbatim>\<open>addEventListener\<close> and \<^verbatim>\<open>removeEventListener\<close> are called for the same event name and
  handler. The second \<^verbatim>\<open>addEventListener\<close> stores its listener over the first one
  without removing the first one from the emitter, and \<^verbatim>\<open>removeEventListener\<close> removes
  the second listener and the entry. The registry then has no entry for the pair, as
  the claim says; but the first listener is still live, a native event "started" still
  invokes the handler, and nothing reaches that listener any more: a further
  \<^verbatim>\<open>removeEventListener\<close> and \<^verbatim>\<open>destroy()\<close> leave it live.
\<close>

theorem readd_then_remove_leaks:
  "registry_entry
     (removeEventListener Started (Callback 0 (FunctionText ''function onStarted() {}''))
       (addEventListener Started (Callback 0 (FunctionText ''function onStarted() {}''))
         (addEventListener Started (Callback 0 (FunctionText ''function onStarted() {}''))
           (initial_player JNull))))
     Started ''function onStarted() {}'' = None \<and>
   invoked (MEDIA_PLAYER_EVENTS Started) payload_ok
     (removeEventListener Started (Callback 0 (FunctionText ''function onStarted() {}''))
       (addEventListener Started (Callback 0 (FunctionText ''function onStarted() {}''))
         (addEventListener Started (Callback 0 (FunctionText ''function onStarted() {}''))
           (initial_player JNull))))
     = [Callback 0 (FunctionText ''function onStarted() {}'')] \<and>
   invoked (MEDIA_PLAYER_EVENTS Started) payload_ok
     (removeEventListener Started (Callback 0 (FunctionText ''function onStarted() {}''))
       (removeEventListener Started (Callback 0 (FunctionText ''function onStarted() {}''))
         (addEventListener Started (Callback 0 (FunctionText ''function onStarted() {}''))
           (addEventListener Started (Callback 0 (FunctionText ''function onStarted() {}''))
             (initial_player JNull)))))
     = [Callback 0 (FunctionText ''function onStarted() {}'')] \<and>
   invoked (MEDIA_PLAYER_EVENTS Started) payload_ok
     (destroy
       (removeEventListener Started (Callback 0 (FunctionText ''function onStarted() {}''))
         (addEventListener Started (Callback 0 (FunctionText ''function onStarted() {}''))
           (addEventListener Started (Callback 0 (FunctionText ''function onStarted() {}''))
             (initial_player JNull)))))
     = [Callback 0 (FunctionText ''function onStarted() {}'')]"
  by (simp add: invoked_receivers destroy_eq eval_defs)

text \<open>
  Claim C4, at a failing input. Two function objects with the same source text, such as
  two closures of one arrow function, are registered for "started". They have the same
  key in the bucket, so the second registration replaces the entry of the first.
  \<^verbatim>\<open>removeEventListener\<close> for the first handler removes the listener of the second and
  deletes the bucket; an event "started" then invokes the first handler and not the
  second.
\<close>

theorem remove_same_text_handler:
  "subscriptions (removeEventListener Started (Callback 1 (FunctionText ''() => refresh()''))
      (addEventListener Started (Callback 2 (FunctionText ''() => refresh()''))
        (addEventListener Started (Callback 1 (FunctionText ''() => refresh()'')) (initial_player JNull)))) = [] \<and>
   emitter_subscriptions (removeEventListener Started (Callback 1 (FunctionText ''() => refresh()''))
      (addEventListener Started (Callback 2 (FunctionText ''() => refresh()''))
        (addEventListener Started (Callback 1 (FunctionText ''() => refresh()'')) (initial_player JNull))))
     = [(0, ''started'', Callback 1 (FunctionText ''() => refresh()''))] \<and>
   invoked (MEDIA_PLAYER_EVENTS Started) payload_ok
     (removeEventListener Started (Callback 1 (FunctionText ''() => refresh()''))
      (addEventListener Started (Callback 2 (FunctionText ''() => refresh()''))
        (addEventListener Started (Callback 1 (FunctionText ''() => refresh()'')) (initial_player JNull))))
     = [Callback 1 (FunctionText ''() => refresh()'')]"
  by (simp add: invoked_receivers eval_defs)

text \<open>
  Claim C5, as the code has it. The decoder has no check of the range. For a
  \<^verbatim>\<open>ret_code\<close> that is an integer below 0 or above 18, the index is outside the table
  and the decoder assigns \<^verbatim>\<open>undefined\<close> to \<^verbatim>\<open>EVENT_RESULT\<close>: the payload that the handler
  gets has the property, and the property holds no symbolic name.
\<close>

theorem decoder_out_of_table:
  "integer_of (read_prop (ret_code eventData)) = Some n \<Longrightarrow> n < 0 \<or> 18 < n \<Longrightarrow>
     listener_callback h eventData st =
       (eventData\<lparr>EVENT_RESULT := Some JUndefined\<rparr>,
        call_handler h (eventData\<lparr>EVENT_RESULT := Some JUndefined\<rparr>) st)"
  by (simp add: listener_callback_def decode_result_def array_at_EVENT_RESULTS_outside)

theorem decoder_out_of_table_witness:
  "integer_of (read_prop (ret_code (payload_code (Some (JNum (Finite 19)))))) = Some 19 \<and>
   fst (listener_callback (Callback 0 (FunctionText ''function f() {}'')) (payload_code (Some (JNum (Finite 19))))
     (initial_player JNull)) =
     (payload_code (Some (JNum (Finite 19))))\<lparr>EVENT_RESULT := Some JUndefined\<rparr>"
proof -
  have c: "integer_of (read_prop (ret_code (payload_code (Some (JNum (Finite 19)))))) = Some 19"
    by (simp add: payload_code_def)
  have r: "(19::int) < 0 \<or> 18 < (19::int)" by simp
  show ?thesis
    using c decoder_out_of_table [OF c r, of "Callback 0 (FunctionText ''function f() {}'')" "initial_player JNull"]
    by simp
qed

text \<open>
  Claim C5 as stated has every integer outside the range 0 to 17 left undecoded. The
  code decodes \<^verbatim>\<open>ret_code\<close> 18, which is outside that range, to
  \<^verbatim>\<open>"PLAYER_TO_BE_EXTENDED"\<close>.
\<close>

theorem decoder_18_counterexample:
  "integer_of (read_prop (ret_code (payload_code (Some (JNum (Finite 18)))))) = Some 18 \<and>
   EVENT_RESULT (fst (listener_callback (Callback 0 (FunctionText ''function f() {}'')) (payload_code (Some (JNum (Finite 18))))
     (initial_player JNull))) = Some (JStr ''PLAYER_TO_BE_EXTENDED'')"
  by (simp add: listener_callback_def decode_result_def payload_code_def array_at_EVENT_RESULTS_18)

text \<open>
  Claim C6. In a state in which \<^verbatim>\<open>this.uri\<close> is falsy, as it is before any call of
  \<^verbatim>\<open>init\<close>, \<^verbatim>\<open>play()\<close>, \<^verbatim>\<open>pause()\<close>, \<^verbatim>\<open>stop()\<close> and \<^verbatim>\<open>seekTo(x)\<close> leave the state as it is, so
  nothing is forwarded to the native module, and \<^verbatim>\<open>position()\<close> returns the falsy value
  of \<^verbatim>\<open>this.uri\<close>; no call raises.
\<close>

theorem no_uri_no_command:
  "\<not> truthy (uri st) \<Longrightarrow>
     play st = st \<and> pause st = st \<and> stop st = st \<and> seekTo x st = st \<and>
     module_calls (play st) = module_calls st \<and> module_calls (pause st) = module_calls st \<and>
     module_calls (stop st) = module_calls st \<and> module_calls (seekTo x st) = module_calls st \<and>
     position st = uri st \<and> \<not> truthy (position st)"
  by (simp add: play_def pause_def stop_def seekTo_def position_def)

theorem no_uri_no_command_witness:
  "\<not> truthy (uri (initial_player (JNum (Finite 7)))) \<and>
   play (initial_player (JNum (Finite 7))) = initial_player (JNum (Finite 7)) \<and>
   pause (initial_player (JNum (Finite 7))) = initial_player (JNum (Finite 7)) \<and>
   stop (initial_player (JNum (Finite 7))) = initial_player (JNum (Finite 7)) \<and>
   seekTo (Finite 5) (initial_player (JNum (Finite 7))) = initial_player (JNum (Finite 7)) \<and>
   module_calls (seekTo (Finite 5) (initial_player (JNum (Finite 7)))) = [] \<and>
   position (initial_player (JNum (Finite 7))) = JUndefined"
  using no_uri_no_command [of "initial_player (JNum (Finite 7))" "Finite 5"]
  by (simp add: initial_player_def)

text \<open>
  Claim C7. In every state, \<^verbatim>\<open>destroy()\<close> adds to the calls forwarded to the native module
  exactly \<^verbatim>\<open>stop()\<close> and then \<^verbatim>\<open>deInit()\<close>, leaves the registry empty, and leaves no listener
  that the registry held live in the emitter.
\<close>

theorem destroy_tears_down:
  "module_calls (destroy st) = module_calls st @ [MStop, MDeInit] \<and>
   subscriptions (destroy st) = [] \<and>
   (\<forall>eventName k l. registry_entry st eventName k = Some l \<longrightarrow>
      l \<notin> fst ` set (emitter_subscriptions (destroy st)))"
proof -
  have "l \<notin> fst ` set (emitter_subscriptions (destroy st))"
    if "registry_entry st eventName k = Some l" for eventName k l
  proof -
    from that obtain ls where ls: "map_of (subscriptions st) eventName = Some ls"
      and l: "map_of ls k = Some l"
      by (auto simp: registry_entry_def split: option.splits)
    from ls have "ls \<in> snd ` set (subscriptions st)"
      by (force dest: map_of_SomeD)
    moreover from l have "k \<in> fst ` set ls"
      by (force dest: map_of_SomeD)
    ultimately show ?thesis using l
      by (auto simp: destroy_eq)
  qed
  then show ?thesis by (simp add: destroy_eq)
qed

theorem destroy_tears_down_witness:
  "registry_entry (addEventListener Started (Callback 1 (FunctionText ''function onStarted() {}'')) (prepared_session 100))
     Started ''function onStarted() {}'' = Some 1 \<and>
   (1::nat) \<in> fst ` set (emitter_subscriptions
     (addEventListener Started (Callback 1 (FunctionText ''function onStarted() {}'')) (prepared_session 100))) \<and>
   (1::nat) \<notin> fst ` set (emitter_subscriptions
     (destroy (addEventListener Started (Callback 1 (FunctionText ''function onStarted() {}'')) (prepared_session 100)))) \<and>
   module_calls (destroy (addEventListener Started (Callback 1 (FunctionText ''function onStarted() {}'')) (prepared_session 100)))
     = [MInit (JStr ''a.mp3''), MStop, MDeInit] \<and>
   subscriptions (destroy (addEventListener Started (Callback 1 (FunctionText ''function onStarted() {}''))
     (prepared_session 100))) = []"
proof -
  let ?st = "addEventListener Started (Callback 1 (FunctionText ''function onStarted() {}'')) (prepared_session 100)"
  have e: "registry_entry ?st Started ''function onStarted() {}'' = Some 1"
    by (simp add: registry_entry_def addEventListener_fields prepared_session_fields
          addEventListener_def emitter_addListener_def Let_def source_text_FunctionText
          is_function_text_def)
  have m: "module_calls ?st = [MInit (JStr ''a.mp3'')]"
    by (simp add: addEventListener_def emitter_addListener_def Let_def prepared_session_fields)
  have s: "(1::nat) \<in> fst ` set (emitter_subscriptions ?st)"
    by (simp add: addEventListener_def emitter_addListener_def Let_def prepared_session_fields)
  from destroy_tears_down [of ?st] e m s show ?thesis by simp
qed

text \<open>
  Claim C8, as the code has it. With a URI set and a known duration \<open>d\<close> above 0,
  \<^verbatim>\<open>seekTo(t)\<close> forwards one seek, to \<open>t\<close> clamped to the range from 0 to \<open>d\<close>; a time
  that is NaN or negative infinity goes to 0, positive infinity to \<open>d\<close>. With the
  duration 100, \<^verbatim>\<open>seekTo(-5)\<close> forwards 0, \<^verbatim>\<open>seekTo(150)\<close> forwards 100 and \<^verbatim>\<open>seekTo(50)\<close>
  forwards 50.
\<close>

theorem seekTo_clamps:
  "truthy (uri st) \<Longrightarrow> duration st = Dur (Finite d) \<Longrightarrow> 0 < d \<Longrightarrow>
     module_calls (seekTo (Finite t) st) = module_calls st @ [MSeekTo (Finite (max 0 (min t d)))] \<and>
     module_calls (seekTo NaN st) = module_calls st @ [MSeekTo (Finite 0)] \<and>
     module_calls (seekTo NegInf st) = module_calls st @ [MSeekTo (Finite 0)] \<and>
     module_calls (seekTo PosInf st) = module_calls st @ [MSeekTo (Finite d)]"
  by (simp add: seekTo_def seek_time_known seek_time_known_other)

theorem seekTo_clamps_witness:
  "truthy (uri (prepared_session 100)) \<and> duration (prepared_session 100) = Dur (Finite 100) \<and>
   module_calls (seekTo (Finite (- 5)) (prepared_session 100)) =
     [MInit (JStr ''a.mp3''), MSeekTo (Finite 0)] \<and>
   module_calls (seekTo (Finite 150) (prepared_session 100)) =
     [MInit (JStr ''a.mp3''), MSeekTo (Finite 100)] \<and>
   module_calls (seekTo (Finite 50) (prepared_session 100)) =
     [MInit (JStr ''a.mp3''), MSeekTo (Finite 50)]"
proof -
  have u: "truthy (uri (prepared_session 100))"
    by (simp add: prepared_session_fields)
  have d: "duration (prepared_session 100) = Dur (Finite 100)"
    by (simp add: prepared_session_fields)
  have p: "(0::rat) < 100" by simp
  show ?thesis
    using u d seekTo_clamps [OF u d p, of "- 5"] seekTo_clamps [OF u d p, of 150]
      seekTo_clamps [OF u d p, of 50]
    by (simp add: prepared_session_fields)
qed

text \<open>
  Claim C8 as stated holds of every known duration. After \<^verbatim>\<open>init('a.mp3')\<close> and an event
  "prepared" that reports the duration 0, the duration is known and is falsy, the second
  statement of \<^verbatim>\<open>seekTo\<close> is skipped, and \<^verbatim>\<open>seekTo(150)\<close> forwards 150, above the duration.
\<close>

theorem seekTo_zero_duration_counterexample:
  "duration (prepared_session 0) = Dur (Finite 0) \<and>
   truthy (uri (prepared_session 0)) \<and>
   module_calls (seekTo (Finite 150) (prepared_session 0)) =
     [MInit (JStr ''a.mp3''), MSeekTo (Finite 150)]"
  by (simp add: prepared_session_fields seekTo_def seek_time_def)

text \<open>
  Claim C9. In every session, whatever its calls and events, \<^verbatim>\<open>addListener\<close> is called at
  most once to register the arrow function of \<^verbatim>\<open>init\<close> for "prepared". It is called
  exactly once in every session that has a call of \<^verbatim>\<open>init\<close> with a valid source, so
  exactly once across two calls of \<^verbatim>\<open>init\<close> with valid sources, and not at all in a
  session without such a call. \<^verbatim>\<open>destroy()\<close> leaves the flag \<^verbatim>\<open>_isPreparedEventReg\<close> as it
  is, and with the flag set a call of \<^verbatim>\<open>init\<close> after \<^verbatim>\<open>destroy()\<close> makes no call of
  \<^verbatim>\<open>addListener\<close>.
\<close>

theorem prepared_listener_once:
  "capture_registrations (run r calls (initial_player p)) \<le> 1 \<and>
   (CallInit source \<in> set calls \<and> valid_source r source \<longrightarrow>
      capture_registrations (run r calls (initial_player p)) = 1) \<and>
   (valid_source r s1 \<and> valid_source r s2 \<longrightarrow>
      capture_registrations (run r [CallInit s1, CallInit s2] (initial_player p)) = 1) \<and>
   ((\<forall>c \<in> set calls. \<forall>s. c = CallInit s \<longrightarrow> \<not> valid_source r s) \<longrightarrow>
      capture_registrations (run r calls (initial_player p)) = 0) \<and>
   isPreparedEventReg (destroy st) = isPreparedEventReg st \<and>
   (isPreparedEventReg st \<longrightarrow>
      addListener_calls (step r (CallInit s) (destroy st)) = addListener_calls st)"
proof -
  have g: "capture_guard (run r cs (initial_player p))" for cs
    by (rule run_capture_guard) (rule initial_capture_guard)
  from g [of calls] have a: "capture_registrations (run r calls (initial_player p)) \<le> 1"
    by (simp add: capture_guard_def split: if_splits)
  have b: "capture_registrations (run r cs (initial_player p)) = 1"
    if "CallInit src \<in> set cs" "valid_source r src" for cs src
    using g [of cs] run_valid_init_sets_flag [OF that, of "initial_player p"]
    by (simp add: capture_guard_def)
  have b2: "capture_registrations (run r [CallInit s1, CallInit s2] (initial_player p)) = 1"
    if "valid_source r s1"
    using b [of s1 "[CallInit s1, CallInit s2]"] that by simp
  have z: "capture_registrations (run r calls (initial_player p)) = 0"
    if "\<forall>c \<in> set calls. \<forall>s. c = CallInit s \<longrightarrow> \<not> valid_source r s"
  proof -
    have "\<not> isPreparedEventReg (run r calls (initial_player p))"
      using that by (intro run_no_valid_init_keeps_flag_unset) (auto simp: initial_player_def)
    with g [of calls] show ?thesis by (simp add: capture_guard_def)
  qed
  have c: "isPreparedEventReg (destroy st) = isPreparedEventReg st"
    by (simp add: destroy_eq)
  have d: "addListener_calls (step r (CallInit s) (destroy st)) = addListener_calls st"
    if "isPreparedEventReg st"
    using that by (auto simp: init_def Let_def destroy_eq split: option.splits sum.splits)
  from a b b2 z c d show ?thesis by blast
qed

theorem prepared_listener_once_witness:
  "valid_source one_asset (JStr ''a.mp3'') \<and> valid_source one_asset (JNum (Finite 7)) \<and>
   CallInit (JNum (Finite 7)) \<in> set [CallInit JNull, CallInit (JNum (Finite 7)), CallDestroy,
     CallInit (JStr ''a.mp3'')] \<and>
   capture_registrations
     (run one_asset [CallInit JNull, CallInit (JNum (Finite 7)), CallDestroy,
        CallInit (JStr ''a.mp3'')] (initial_player JNull)) = 1 \<and>
   capture_registrations
     (run one_asset [CallInit (JStr ''a.mp3''), CallInit (JNum (Finite 7))] (initial_player JNull))
     = 1 \<and>
   isPreparedEventReg (prepared_session 100) \<and>
   isPreparedEventReg (destroy (prepared_session 100)) \<and>
   addListener_calls (step one_asset (CallInit (JNum (Finite 7))) (destroy (prepared_session 100)))
     = [(''prepared'', CaptureDuration)]"
proof -
  have v1: "valid_source one_asset (JStr ''a.mp3'')"
    by (simp add: valid_source_def)
  have v2: "valid_source one_asset (JNum (Finite 7))"
    by (simp add: valid_source_def one_asset_def)
  have f: "isPreparedEventReg (prepared_session 100)"
    by (simp add: prepared_session_fields)
  from prepared_listener_once [of one_asset
      "[CallInit JNull, CallInit (JNum (Finite 7)), CallDestroy, CallInit (JStr ''a.mp3'')]" JNull
      "JNum (Finite 7)" "JStr ''a.mp3''" "JNum (Finite 7)" "prepared_session 100"
      "JNum (Finite 7)"] v1 v2 f
  show ?thesis by (simp add: prepared_session_fields)
qed

text \<open>
  Claim C10. \<^verbatim>\<open>destroy()\<close> leaves \<^verbatim>\<open>this.uri\<close> and \<^verbatim>\<open>this.duration\<close> as they are. So when a
  URI was set before \<^verbatim>\<open>destroy()\<close>, a call of \<^verbatim>\<open>play()\<close>, \<^verbatim>\<open>pause()\<close>, \<^verbatim>\<open>stop()\<close> or
  \<^verbatim>\<open>seekTo(t)\<close> after it is forwarded to the native module.
\<close>

theorem destroy_keeps_source:
  "uri (destroy st) = uri st \<and> duration (destroy st) = duration st \<and>
   (truthy (uri st) \<longrightarrow>
      module_calls (play (destroy st)) = module_calls (destroy st) @ [MPlay] \<and>
      module_calls (pause (destroy st)) = module_calls (destroy st) @ [MPause] \<and>
      module_calls (stop (destroy st)) = module_calls (destroy st) @ [MStop] \<and>
      module_calls (seekTo t (destroy st)) =
        module_calls (destroy st) @ [MSeekTo (seek_time (duration st) t)])"
  by (simp add: destroy_eq play_def pause_def stop_def seekTo_def)

theorem destroy_keeps_source_witness:
  "truthy (uri (prepared_session 100)) \<and>
   uri (destroy (prepared_session 100)) = JStr ''a.mp3'' \<and>
   duration (destroy (prepared_session 100)) = Dur (Finite 100) \<and>
   module_calls (play (destroy (prepared_session 100))) =
     [MInit (JStr ''a.mp3''), MStop, MDeInit, MPlay] \<and>
   module_calls (seekTo (Finite 150) (destroy (prepared_session 100))) =
     [MInit (JStr ''a.mp3''), MStop, MDeInit, MSeekTo (Finite 100)]"
proof -
  have u: "truthy (uri (prepared_session 100))"
    by (simp add: prepared_session_fields)
  have m: "module_calls (destroy (prepared_session 100)) = [MInit (JStr ''a.mp3''), MStop, MDeInit]"
    by (simp add: destroy_eq prepared_session_fields)
  have t: "seek_time (Dur (Finite 100)) (Finite 150) = Finite 100"
    by (simp add: seek_time_def)
  from destroy_keeps_source [of "prepared_session 100" "Finite 150"] u m t
  show ?thesis by (simp add: prepared_session_fields)
qed

end
